theory Spec2Isabelle
  imports Main "HOL-Library.Word"
begin

section \<open>Temporary file housekeeping (class \<open>TemporaryFileHelper\<close>)\<close>

text \<open>
  The helper class works through the file system interface \<open>ITemporaryFileSystem\<close>.
  Its methods are embedded below as functions that take the state of the file system
  and return the new state together with the way the call completed (normally, or by
  an exception). Strings are lists of characters, time stamps and time spans are
  integers (ticks); the 64-bit file-time token of a last write is a \<open>64 word\<close>.
\<close>

subsection \<open>Exceptions and completion of a call\<close>

datatype IOError = FileNotFound | DirectoryNotFound | IOException | ArgumentOutOfRange

datatype completion = Normal | Throw IOError

text \<open>\<open>try { body } catch { }\<close>: whatever the body raised is dropped, its effects stay.\<close>

definition try_catch :: "completion \<times> 's \<Rightarrow> completion \<times> 's" where
  "try_catch r = (Normal, snd r)"

subsection \<open>The file system capability\<close>

text \<open>
  Modelled from the spec: the Filesystem Capability (\<open>IFileSystem\<close>,
  \<open>ITemporaryFileSystem\<close> and the class \<open>TemporaryFileInfo\<close>), which the helper
  consumes through an interface and which is not part of the source shown. The model is
  an in-memory file system: a list of files in enumeration order, each with its full
  path, text, creation time, last-write token and a flag telling that the file is in use
  by somebody else (then deleting or overwriting it fails with an I/O error), the list
  of existing directories, and the clock that stamps written files.
\<close>

record FileEntry =
  Path :: string
  Text :: string
  Created :: int
  Modified :: "64 word"
  InUse :: bool

record FileSystem =
  Files :: "FileEntry list"
  Directories :: "string list"
  Clock :: int

record TemporaryFileInfo =
  Name :: string
  FullName :: string
  CreationTime :: int

text \<open>Modelled from the spec: \<open>combine(dir, name)\<close> and \<open>fileNameOf(path)\<close>, with
  \<open>/\<close> as the separator.\<close>

definition Combine :: "string \<Rightarrow> string \<Rightarrow> string" where
  "Combine dir name = dir @ ''/'' @ name"

definition GetFileName :: "string \<Rightarrow> string" where
  "GetFileName path = rev (takeWhile (\<lambda>c. c \<noteq> CHR ''/'') (rev path))"

definition inDirectory :: "string \<Rightarrow> string \<Rightarrow> bool" where
  "inDirectory dir path = (path = Combine dir (GetFileName path))"

definition lookupFile :: "FileSystem \<Rightarrow> string \<Rightarrow> FileEntry option" where
  "lookupFile fs path = find (\<lambda>e. Path e = path) (Files fs)"

definition FileExists :: "FileSystem \<Rightarrow> string \<Rightarrow> bool" where
  "FileExists fs path = (lookupFile fs path \<noteq> None)"

definition DirectoryExists :: "FileSystem \<Rightarrow> string \<Rightarrow> bool" where
  "DirectoryExists fs path = (path \<in> set (Directories fs))"

text \<open>Modelled from the spec: \<open>delete(path)\<close> fails with an I/O error on failure (here:
  the file is in use); deleting a path that holds no file is not an error.\<close>

definition DeleteFile :: "string \<Rightarrow> FileSystem \<Rightarrow> completion \<times> FileSystem" where
  "DeleteFile path fs =
     (case lookupFile fs path of
        None \<Rightarrow> (Normal, fs)
      | Some e \<Rightarrow>
          if InUse e then (Throw IOException, fs)
          else (Normal, fs\<lparr>Files := filter (\<lambda>e. Path e \<noteq> path) (Files fs)\<rparr>))"




definition toInfo :: "FileEntry \<Rightarrow> TemporaryFileInfo" where
  "toInfo e = \<lparr>Name = GetFileName (Path e), FullName = Path e, CreationTime = Created e\<rparr>"

definition GetTemporaryFileInfos :: "FileSystem \<Rightarrow> string \<Rightarrow> IOError + TemporaryFileInfo list" where
  "GetTemporaryFileInfos fs path =
     (if DirectoryExists fs path
      then Inr (map toInfo (filter (\<lambda>e. inDirectory path (Path e)) (Files fs)))
      else Inl DirectoryNotFound)"




subsection \<open>String helpers of the platform\<close>

text \<open>\<open>Trim\<close> removes white space at both ends and the comparison that ignores case
  compares the upper-case forms, character by character; both are modelled on the ASCII
  characters.\<close>

definition isWhiteSpace :: "char \<Rightarrow> bool" where
  "isWhiteSpace c = (c \<in> set [CHR 0x09, CHR 0x0A, CHR 0x0B, CHR 0x0C, CHR 0x0D, CHR '' ''])"

definition Trim :: "string \<Rightarrow> string" where
  "Trim s = rev (dropWhile isWhiteSpace (rev (dropWhile isWhiteSpace s)))"

definition toUpper :: "char \<Rightarrow> char" where
  "toUpper c =
     (case map_of (zip ''abcdefghijklmnopqrstuvwxyz'' ''ABCDEFGHIJKLMNOPQRSTUVWXYZ'') c of
        Some u \<Rightarrow> u
      | None \<Rightarrow> c)"

text \<open>\<open>a.Equals(b, StringComparison.OrdinalIgnoreCase)\<close>\<close>

definition EqualsIgnoreCase :: "string \<Rightarrow> string \<Rightarrow> bool" where
  "EqualsIgnoreCase a b = (map toUpper a = map toUpper b)"

subsection \<open>Deletion primitives\<close>

text \<open>
  \<open>Delete(filePath)\<close>: the first \<open>DeleteFile\<close> is not guarded, so its exception leaves
  the method at once; the removal of the companion \<open>.delete\<close> file is guarded.
\<close>

definition Delete :: "string \<Rightarrow> FileSystem \<Rightarrow> completion \<times> FileSystem" where
  "Delete filePath fileSystem =
     (case (if FileExists fileSystem filePath then DeleteFile filePath fileSystem
            else (Normal, fileSystem)) of
        (Throw e, fs1) \<Rightarrow> (Throw e, fs1)
      | (Normal, fs1) \<Rightarrow>
          (let filePath2 = filePath @ ''.delete'' in
           if FileExists fs1 filePath2 then try_catch (DeleteFile filePath2 fs1)
           else (Normal, fs1)))"

definition TryDelete :: "string \<Rightarrow> FileSystem \<Rightarrow> completion \<times> FileSystem" where
  "TryDelete filePath fileSystem =
     (if FileExists fileSystem filePath then try_catch (Delete filePath fileSystem)
      else (Normal, fileSystem))"

subsection \<open>Purging a directory\<close>

text \<open>
  The body shared by the two \<open>foreach\<close>/\<open>for\<close> loops of \<open>PurgeDirectory\<close>: an entry
  whose name equals the check file name, ignoring case, is skipped; the deletion of any
  other entry is tried, and its failure is dropped.
\<close>

fun deleteEach :: "string \<Rightarrow> TemporaryFileInfo list \<Rightarrow> FileSystem \<Rightarrow> FileSystem" where
  "deleteEach checkFileName [] fs = fs"
| "deleteEach checkFileName (fi # rest) fs =
     deleteEach checkFileName rest
       (if \<not> EqualsIgnoreCase checkFileName (Name fi)
        then snd (try_catch (DeleteFile (FullName fi) fs))
        else fs)"

text \<open>The comparison delegate handed to \<open>Array.Sort\<close>.\<close>

definition compareCreationTime :: "TemporaryFileInfo \<Rightarrow> TemporaryFileInfo \<Rightarrow> int" where
  "compareCreationTime x y = (if CreationTime x < CreationTime y then - 1 else 1)"

text \<open>
  Modelled from the spec: \<open>Array.Sort\<close> with a comparison delegate belongs to the
  platform, not to the source shown; the spec describes its result here as a stable
  ascending sort. The model is the insertion sort driven by the delegate: an element
  moves behind the elements that the delegate reports as smaller than it.
\<close>

fun insertSorted :: "('a \<Rightarrow> 'a \<Rightarrow> int) \<Rightarrow> 'a \<Rightarrow> 'a list \<Rightarrow> 'a list" where
  "insertSorted cmp x [] = [x]"
| "insertSorted cmp x (y # ys) =
     (if cmp y x < 0 then y # insertSorted cmp x ys else x # y # ys)"

definition Array_Sort :: "('a \<Rightarrow> 'a \<Rightarrow> int) \<Rightarrow> 'a list \<Rightarrow> 'a list" where
  "Array_Sort cmp xs = foldr (insertSorted cmp) xs []"

text \<open>
  \<open>dateTime.Subtract(timeSpan)\<close> belongs to the platform: a \<open>DateTime\<close> holds between 0
  and \<open>MaxTicks\<close> ticks (those of \<open>DateTime.MaxValue\<close>), and the subtraction raises
  \<open>ArgumentOutOfRangeException\<close> when its result is not in this range.
\<close>

definition MaxTicks :: int where
  "MaxTicks = 3155378975999999999"

definition Subtract :: "int \<Rightarrow> int \<Rightarrow> IOError + int" where
  "Subtract dateTime timeSpan =
     (if dateTime - timeSpan < 0 \<or> MaxTicks < dateTime - timeSpan then Inl ArgumentOutOfRange
      else Inr (dateTime - timeSpan))"

text \<open>The age-based part of \<open>PurgeDirectory\<close>; \<open>now\<close> is the value of \<open>DateTime.Now\<close>.
  The subtraction stands outside every \<open>try\<close>, so its exception leaves the method before
  the directory is enumerated.\<close>

definition agePass ::
  "string \<Rightarrow> int \<Rightarrow> int \<Rightarrow> string \<Rightarrow> int \<Rightarrow> FileSystem \<Rightarrow> completion \<times> FileSystem" where
  "agePass directoryToClean autoExpireTime maxFilesInDirectory checkFileName now fileSystem =
     (if autoExpireTime \<noteq> 0 \<and> maxFilesInDirectory \<noteq> 0 then
        (case Subtract now autoExpireTime of
           Inl e \<Rightarrow> (Throw e, fileSystem)
         | Inr autoExpireLimit \<Rightarrow>
             (case GetTemporaryFileInfos fileSystem directoryToClean of
                Inl e \<Rightarrow> (Throw e, fileSystem)
              | Inr infos \<Rightarrow>
                  (Normal, deleteEach checkFileName
                             (filter (\<lambda>fi. CreationTime fi < autoExpireLimit) infos)
                             fileSystem)))
      else (Normal, fileSystem))"

text \<open>The count-based part of \<open>PurgeDirectory\<close>.\<close>

definition countPass :: "string \<Rightarrow> int \<Rightarrow> string \<Rightarrow> FileSystem \<Rightarrow> completion \<times> FileSystem" where
  "countPass directoryToClean maxFilesInDirectory checkFileName fileSystem =
     (if maxFilesInDirectory \<ge> 0 then
        (case GetTemporaryFileInfos fileSystem directoryToClean of
           Inl e \<Rightarrow> (Throw e, fileSystem)
         | Inr files \<Rightarrow>
             if int (length files) > maxFilesInDirectory then
               (let sorted = (if maxFilesInDirectory \<noteq> 0
                              then Array_Sort compareCreationTime files else files)
                in (Normal, deleteEach checkFileName
                              (take (nat (int (length files) - maxFilesInDirectory)) sorted)
                              fileSystem))
             else (Normal, fileSystem))
      else (Normal, fileSystem))"

definition PurgeDirectory ::
  "string \<Rightarrow> int \<Rightarrow> int \<Rightarrow> string \<Rightarrow> int \<Rightarrow> FileSystem \<Rightarrow> completion \<times> FileSystem" where
  "PurgeDirectory directoryToClean autoExpireTime maxFilesInDirectory checkFileName0 now fileSystem =
     (let checkFileName = (if length checkFileName0 > 0
                           then Trim (GetFileName checkFileName0) else checkFileName0)
      in if length checkFileName0 > 0 \<and>
            \<not> FileExists fileSystem (Combine directoryToClean checkFileName)
         then (Normal, fileSystem)
         else
           (case agePass directoryToClean autoExpireTime maxFilesInDirectory checkFileName
                   now fileSystem of
              (Throw e, fs1) \<Rightarrow> (Throw e, fs1)
            | (Normal, fs1) \<Rightarrow>
                countPass directoryToClean maxFilesInDirectory checkFileName fs1))"

subsection \<open>Marking files for deletion and sweeping the marks\<close>












subsection \<open>Notions used to state the properties\<close>

text \<open>A file is in use when it exists and its deletion fails.\<close>

definition isInUse :: "FileSystem \<Rightarrow> string \<Rightarrow> bool" where
  "isInUse fs path = (case lookupFile fs path of None \<Rightarrow> False | Some e \<Rightarrow> InUse e)"

text \<open>The file system without the files at the given paths.\<close>

definition removeFiles :: "string set \<Rightarrow> FileSystem \<Rightarrow> FileSystem" where
  "removeFiles R fs = fs\<lparr>Files := filter (\<lambda>e. Path e \<notin> R) (Files fs)\<rparr>"

text \<open>The paths of the files that \<open>Delete\<close> removes when it does not raise.\<close>

definition deleted :: "FileSystem \<Rightarrow> string \<Rightarrow> string set" where
  "deleted fs p =
     (if isInUse fs p then {}
      else {p} \<union> (if isInUse fs (p @ ''.delete'') then {} else {p @ ''.delete''}))"

text \<open>The entries of a directory, as \<open>GetTemporaryFileInfos\<close> returns them when the directory exists.\<close>

definition listing :: "FileSystem \<Rightarrow> string \<Rightarrow> TemporaryFileInfo list" where
  "listing fs dir = map toInfo (filter (\<lambda>e. inDirectory dir (Path e)) (Files fs))"

text \<open>The paths that the deletion loop of \<open>PurgeDirectory\<close> removes: the entries that are not
  named like the check file and are not in use.\<close>

definition purged :: "string \<Rightarrow> TemporaryFileInfo list \<Rightarrow> FileSystem \<Rightarrow> string set" where
  "purged checkFileName infos fs =
     set (map FullName
            (filter (\<lambda>fi. \<not> EqualsIgnoreCase checkFileName (Name fi) \<and>
                          \<not> isInUse fs (FullName fi)) infos))"

text \<open>The paths removed by the age-based part.\<close>

definition agePurged :: "string \<Rightarrow> int \<Rightarrow> string \<Rightarrow> int \<Rightarrow> FileSystem \<Rightarrow> string set" where
  "agePurged dir autoExpireTime checkFileName now fs =
     purged checkFileName
       (filter (\<lambda>fi. CreationTime fi < now - autoExpireTime) (listing fs dir)) fs"

text \<open>The paths removed by the count-based part, by the stable sort of the entries.\<close>

definition countPurged :: "string \<Rightarrow> int \<Rightarrow> string \<Rightarrow> FileSystem \<Rightarrow> string set" where
  "countPurged dir maxFiles checkFileName fs =
     (if 0 \<le> maxFiles \<and> maxFiles < int (length (listing fs dir))
      then purged checkFileName
             (take (nat (int (length (listing fs dir)) - maxFiles))
                (if maxFiles \<noteq> 0 then sort_key CreationTime (listing fs dir)
                 else listing fs dir)) fs
      else {})"

text \<open>The file system after the age-based part, when that part did not raise.\<close>

definition afterAgePass :: "string \<Rightarrow> int \<Rightarrow> int \<Rightarrow> string \<Rightarrow> int \<Rightarrow> FileSystem \<Rightarrow> FileSystem" where
  "afterAgePass dir aet maxFiles chk now fs =
     (if aet \<noteq> 0 \<and> maxFiles \<noteq> 0 then removeFiles (agePurged dir aet chk now fs) fs else fs)"





section \<open>Example file systems\<close>

definition mkFile :: "string \<Rightarrow> string \<Rightarrow> int \<Rightarrow> 64 word \<Rightarrow> bool \<Rightarrow> FileEntry" where
  "mkFile p t c m u = \<lparr>Path = p, Text = t, Created = c, Modified = m, InUse = u\<rparr>"

definition fsNoSentinel :: FileSystem where
  "fsNoSentinel =
     \<lparr>Files = [mkFile ''tmp/a'' ''x'' 2 2 False, mkFile ''tmp/b'' ''y'' 3 3 False],
      Directories = [''tmp''], Clock = 100\<rparr>"

definition fsMarkerOnly :: FileSystem where
  "fsMarkerOnly =
     \<lparr>Files = [mkFile ''tmp/a.delete'' ''5'' 1 7 False],
      Directories = [''tmp''], Clock = 100\<rparr>"

definition fsBusyFile :: FileSystem where
  "fsBusyFile =
     \<lparr>Files = [mkFile ''tmp/a'' ''x'' 1 5 True, mkFile ''tmp/a.delete'' ''5'' 2 7 False],
      Directories = [''tmp''], Clock = 100\<rparr>"

definition fsBusyMarker :: FileSystem where
  "fsBusyMarker =
     \<lparr>Files = [mkFile ''tmp/a'' ''x'' 1 5 False, mkFile ''tmp/a.delete'' ''5'' 2 7 True],
      Directories = [''tmp''], Clock = 100\<rparr>"

definition fsMarked :: FileSystem where
  "fsMarked =
     \<lparr>Files = [mkFile ''tmp/a'' ''x'' 1 5 False, mkFile ''tmp/a.delete'' ''5'' 2 7 False],
      Directories = [''tmp''], Clock = 100\<rparr>"

definition mkInfo :: "string \<Rightarrow> string \<Rightarrow> int \<Rightarrow> TemporaryFileInfo" where
  "mkInfo n p c = \<lparr>Name = n, FullName = p, CreationTime = c\<rparr>"

definition fsPurge :: FileSystem where
  "fsPurge =
     \<lparr>Files = [mkFile ''tmp/.temporary'' [] 1 1 False,
               mkFile ''tmp/c'' ''x'' 60 60 False,
               mkFile ''tmp/a'' ''x'' 10 10 False,
               mkFile ''tmp/b'' ''x'' 10 10 False,
               mkFile ''other/x'' ''x'' 5 5 False,
               mkFile ''tmp/d'' ''x'' 80 80 False],
      Directories = [''tmp'', ''other''], Clock = 100\<rparr>"

definition infosPurge :: "TemporaryFileInfo list" where
  "infosPurge =
     [mkInfo ''.temporary'' ''tmp/.temporary'' 1, mkInfo ''c'' ''tmp/c'' 60,
      mkInfo ''a'' ''tmp/a'' 10, mkInfo ''b'' ''tmp/b'' 10, mkInfo ''d'' ''tmp/d'' 80]"

definition fsSmall :: FileSystem where
  "fsSmall =
     \<lparr>Files = [mkFile ''tmp/.temporary'' [] 1 1 False,
               mkFile ''tmp/a'' ''x'' 2 2 False,
               mkFile ''tmp/b'' ''x'' 3 3 False],
      Directories = [''tmp''], Clock = 100\<rparr>"

definition fsExpired :: FileSystem where
  "fsExpired =
     \<lparr>Files = [mkFile ''tmp/.temporary'' [] 1 1 False,
               mkFile ''tmp/.TEMPORARY'' [] 2 2 False,
               mkFile ''tmp/a'' ''x'' 10 10 True,
               mkFile ''tmp/b'' ''x'' 10 10 False,
               mkFile ''tmp/c'' ''x'' 60 60 False],
      Directories = [''tmp''], Clock = 100\<rparr>"

definition infosExpired :: "TemporaryFileInfo list" where
  "infosExpired =
     [mkInfo ''.temporary'' ''tmp/.temporary'' 1, mkInfo ''.TEMPORARY'' ''tmp/.TEMPORARY'' 2,
      mkInfo ''a'' ''tmp/a'' 10, mkInfo ''b'' ''tmp/b'' 10, mkInfo ''c'' ''tmp/c'' 60]"









section \<open>Properties\<close>

subsection \<open>Files and their removal\<close>

lemma find_filter_notin:
  "find (\<lambda>e. Path e = q) (filter (\<lambda>e. Path e \<notin> R) xs) =
     (if q \<in> R then None else find (\<lambda>e. Path e = q) xs)"
  by (induction xs) auto

lemma lookupFile_removeFiles:
  "lookupFile (removeFiles R fs) q = (if q \<in> R then None else lookupFile fs q)"
  by (simp add: lookupFile_def removeFiles_def find_filter_notin)

lemma FileExists_removeFiles:
  "FileExists (removeFiles R fs) q = (q \<notin> R \<and> FileExists fs q)"
  by (simp add: FileExists_def lookupFile_removeFiles)

lemma isInUse_removeFiles:
  "isInUse (removeFiles R fs) q = (q \<notin> R \<and> isInUse fs q)"
  by (simp add: isInUse_def lookupFile_removeFiles)

lemma removeFiles_empty [simp]: "removeFiles {} fs = fs"
  by (simp add: removeFiles_def)

lemma removeFiles_removeFiles: "removeFiles R (removeFiles Q fs) = removeFiles (Q \<union> R) fs"
  by (auto simp: removeFiles_def intro: filter_cong)


lemma FileExists_iff: "FileExists fs p \<longleftrightarrow> p \<in> Path ` set (Files fs)"
  by (auto simp: FileExists_def lookupFile_def find_None_iff)

lemma removeFiles_absent:
  "(\<And>p. p \<in> R \<Longrightarrow> \<not> FileExists fs p) \<Longrightarrow> removeFiles R fs = fs"
proof -
  assume a: "\<And>p. p \<in> R \<Longrightarrow> \<not> FileExists fs p"
  have "filter (\<lambda>e. Path e \<notin> R) (Files fs) = Files fs"
    using a by (auto simp: FileExists_iff filter_id_conv)
  then show ?thesis by (simp add: removeFiles_def)
qed

lemma isInUse_FileExists: "isInUse fs p \<Longrightarrow> FileExists fs p"
  by (auto simp: isInUse_def FileExists_def split: option.splits)

lemma DeleteFile_eq:
  "DeleteFile p fs =
     (if isInUse fs p then (Throw IOException, fs) else (Normal, removeFiles {p} fs))"
proof (cases "lookupFile fs p")
  case None
  then have "removeFiles {p} fs = fs"
    by (intro removeFiles_absent) (simp add: FileExists_def)
  with None show ?thesis by (simp add: DeleteFile_def isInUse_def)
next
  case (Some e)
  then show ?thesis by (simp add: DeleteFile_def isInUse_def removeFiles_def)
qed

lemma removeFiles_eqI:
  "(\<And>q. FileExists fs q \<Longrightarrow> (q \<in> R) = (q \<in> Q)) \<Longrightarrow> removeFiles R fs = removeFiles Q fs"
proof -
  assume a: "\<And>q. FileExists fs q \<Longrightarrow> (q \<in> R) = (q \<in> Q)"
  have "filter (\<lambda>e. Path e \<notin> R) (Files fs) = filter (\<lambda>e. Path e \<notin> Q) (Files fs)"
    by (rule filter_cong) (auto simp: a FileExists_iff)
  then show ?thesis by (simp add: removeFiles_def)
qed

lemma Delete_eq:
  "Delete p fs =
     (if isInUse fs p then (Throw IOException, fs) else (Normal, removeFiles (deleted fs p) fs))"
proof (cases "isInUse fs p")
  case True
  then show ?thesis
    by (simp add: Delete_def isInUse_FileExists DeleteFile_eq)
next
  case False
  define m where "m = p @ ''.delete''"
  define fs1 where "fs1 = removeFiles {p} fs"
  have mp: "m \<noteq> p" by (simp add: m_def)
  have first: "(if FileExists fs p then DeleteFile p fs else (Normal, fs)) = (Normal, fs1)"
    using False removeFiles_absent [of "{p}" fs] by (auto simp: DeleteFile_eq fs1_def)
  have D: "Delete p fs =
      (if FileExists fs1 m then try_catch (DeleteFile m fs1) else (Normal, fs1))"
    by (simp add: Delete_def first m_def)
  have ex: "FileExists fs1 m = FileExists fs m" and us: "isInUse fs1 m = isInUse fs m"
    using mp by (simp_all add: fs1_def FileExists_removeFiles isInUse_removeFiles)
  have both: "removeFiles {m} fs1 = removeFiles {p, m} fs"
    unfolding fs1_def removeFiles_removeFiles by (rule removeFiles_eqI) auto
  have dl: "deleted fs p = (if isInUse fs m then {p} else {p, m})"
    using False unfolding deleted_def m_def by auto
  have "snd (Delete p fs) = removeFiles (deleted fs p) fs"
  proof (cases "isInUse fs m")
    case True
    then show ?thesis
      by (simp add: D ex us DeleteFile_eq try_catch_def dl fs1_def [symmetric])
  next
    case u: False
    show ?thesis
    proof (cases "FileExists fs m")
      case True
      then show ?thesis using u
        by (simp add: D ex us DeleteFile_eq try_catch_def dl both)
    next
      case ne: False
      have "removeFiles {p, m} fs = removeFiles {p} fs"
        using ne by (intro removeFiles_eqI) auto
      then show ?thesis using u ne
        by (simp add: D ex dl fs1_def [symmetric])
    qed
  qed
  moreover have "fst (Delete p fs) = Normal"
    by (simp add: D try_catch_def)
  ultimately show ?thesis using False by (simp add: prod_eq_iff)
qed

lemma TryDelete_eq:
  "TryDelete p fs =
     (Normal, if FileExists fs p then removeFiles (deleted fs p) fs else fs)"
  by (simp add: TryDelete_def Delete_eq try_catch_def deleted_def)

lemmas fs_eval = FileExists_def lookupFile_def isInUse_def mkFile_def Delete_def TryDelete_def
  DeleteFile_def try_catch_def

subsection \<open>The deletion primitives\<close>

text \<open>
  Claim C4, as amended. On a path that holds no file, \<open>TryDelete\<close> and \<open>Delete\<close>
  both return without raising. \<open>TryDelete\<close> leaves the file system as it is.
  \<open>Delete\<close> still looks for the companion file \<open>path + ".delete"\<close> and removes it
  unless that file is in use; nothing else changes, and nothing changes at all when
  there is no companion file.
\<close>

theorem missing_path_unchanged:
  "\<not> FileExists fs p \<Longrightarrow>
   TryDelete p fs = (Normal, fs) \<and>
   Delete p fs =
     (Normal, if isInUse fs (p @ ''.delete'') then fs else removeFiles {p @ ''.delete''} fs) \<and>
   (\<not> FileExists fs (p @ ''.delete'') \<longrightarrow> Delete p fs = (Normal, fs))"
proof -
  assume ne: "\<not> FileExists fs p"
  then have u: "\<not> isInUse fs p" using isInUse_FileExists by blast
  have r1: "removeFiles {p} fs = fs"
    using ne by (intro removeFiles_absent) simp
  have r2: "removeFiles {p, p @ ''.delete''} fs = removeFiles {p @ ''.delete''} fs"
    using ne by (intro removeFiles_eqI) auto
  have D: "Delete p fs =
     (Normal, if isInUse fs (p @ ''.delete'') then fs else removeFiles {p @ ''.delete''} fs)"
    using u r1 r2 by (simp add: Delete_eq deleted_def)
  have "\<not> FileExists fs (p @ ''.delete'') \<Longrightarrow> removeFiles {p @ ''.delete''} fs = fs"
    by (intro removeFiles_absent) simp
  with D ne show ?thesis
    by (auto simp: TryDelete_eq dest: isInUse_FileExists)
qed

theorem missing_path_unchanged_witness:
  "\<not> FileExists fsMarkerOnly ''tmp/b'' \<and>
   TryDelete ''tmp/b'' fsMarkerOnly = (Normal, fsMarkerOnly) \<and>
   Delete ''tmp/b'' fsMarkerOnly = (Normal, fsMarkerOnly)"
proof -
  have b: "\<not> FileExists fsMarkerOnly ''tmp/b''"
    by (simp add: fsMarkerOnly_def fs_eval)
  have bm: "\<not> FileExists fsMarkerOnly (''tmp/b'' @ ''.delete'')"
    by (simp add: fsMarkerOnly_def fs_eval)
  show ?thesis
    using b bm missing_path_unchanged [OF b] by blast
qed

text \<open>
  Claim C4 as stated fails for \<open>Delete\<close>: the path \<open>tmp/a\<close> holds no file, and the
  call removes the file \<open>tmp/a.delete\<close>.
\<close>

theorem Delete_missing_path_counterexample:
  "\<not> FileExists fsMarkerOnly ''tmp/a'' \<and>
   snd (Delete ''tmp/a'' fsMarkerOnly) \<noteq> fsMarkerOnly \<and>
   \<not> FileExists (snd (Delete ''tmp/a'' fsMarkerOnly)) ''tmp/a.delete''"
  by (simp add: fsMarkerOnly_def fs_eval)

text \<open>
  Claim C3, as amended. When the file at the path is in use, \<open>Delete\<close> raises the
  error of the failed deletion and changes nothing: the companion file
  \<open>path + ".delete"\<close> stays. Otherwise \<open>Delete\<close> returns normally, the path holds no
  file afterwards, and the companion file is gone unless it is in use itself (the
  failure of that second removal is dropped).
\<close>

theorem Delete_companion_marker:
  "(isInUse fs p \<longrightarrow> Delete p fs = (Throw IOException, fs)) \<and>
   (\<not> isInUse fs p \<longrightarrow>
      fst (Delete p fs) = Normal \<and>
      \<not> FileExists (snd (Delete p fs)) p \<and>
      (FileExists (snd (Delete p fs)) (p @ ''.delete'') \<longleftrightarrow> isInUse fs (p @ ''.delete'')))"
  by (auto simp: Delete_eq deleted_def FileExists_removeFiles dest: isInUse_FileExists)

theorem Delete_companion_marker_witness:
  "isInUse fsBusyFile ''tmp/a'' \<and>
   Delete ''tmp/a'' fsBusyFile = (Throw IOException, fsBusyFile) \<and>
   \<not> isInUse fsBusyMarker ''tmp/a'' \<and>
   fst (Delete ''tmp/a'' fsBusyMarker) = Normal \<and>
   \<not> FileExists (snd (Delete ''tmp/a'' fsBusyMarker)) ''tmp/a'' \<and>
   FileExists (snd (Delete ''tmp/a'' fsBusyMarker)) (''tmp/a'' @ ''.delete'') \<and>
   \<not> isInUse fsMarkerOnly ''tmp/a'' \<and>
   \<not> FileExists (snd (Delete ''tmp/a'' fsMarkerOnly)) (''tmp/a'' @ ''.delete'')"
proof -
  have 1: "isInUse fsBusyFile ''tmp/a''" by (simp add: fsBusyFile_def fs_eval)
  have 2: "\<not> isInUse fsBusyMarker ''tmp/a''" by (simp add: fsBusyMarker_def fs_eval)
  have 3: "isInUse fsBusyMarker (''tmp/a'' @ ''.delete'')" by (simp add: fsBusyMarker_def fs_eval)
  have 4: "\<not> isInUse fsMarkerOnly ''tmp/a''" by (simp add: fsMarkerOnly_def fs_eval)
  have 5: "\<not> isInUse fsMarkerOnly (''tmp/a'' @ ''.delete'')" by (simp add: fsMarkerOnly_def fs_eval)
  show ?thesis
    using 1 2 3 4 5 Delete_companion_marker [of fsBusyFile "''tmp/a''"]
      Delete_companion_marker [of fsBusyMarker "''tmp/a''"]
      Delete_companion_marker [of fsMarkerOnly "''tmp/a''"]
    by simp
qed

text \<open>
  Claim C3 as stated fails when the first deletion raises: the exception leaves
  \<open>Delete\<close> before the companion file is looked at, and \<open>tmp/a.delete\<close> is still there.
\<close>

theorem Delete_busy_file_counterexample:
  "fst (Delete ''tmp/a'' fsBusyFile) = Throw IOException \<and>
   FileExists (snd (Delete ''tmp/a'' fsBusyFile)) (''tmp/a'' @ ''.delete'')"
  by (simp add: fsBusyFile_def fs_eval)

text \<open>
  Claim C10, as amended. For a file that exists and is not in use, \<open>TryDelete\<close>
  returns normally, the file is gone, and its companion file \<open>path + ".delete"\<close> is
  gone too unless the companion file is in use: then its removal fails, the failure is
  dropped and the companion file stays.
\<close>

theorem TryDelete_removes_marker:
  "FileExists fs p \<Longrightarrow> \<not> isInUse fs p \<Longrightarrow>
   fst (TryDelete p fs) = Normal \<and>
   \<not> FileExists (snd (TryDelete p fs)) p \<and>
   (FileExists (snd (TryDelete p fs)) (p @ ''.delete'') \<longleftrightarrow> isInUse fs (p @ ''.delete''))"
  by (auto simp: TryDelete_eq deleted_def FileExists_removeFiles dest: isInUse_FileExists)

theorem TryDelete_removes_marker_witness:
  "FileExists fsMarked ''tmp/a'' \<and> \<not> isInUse fsMarked ''tmp/a'' \<and>
   FileExists fsMarked (''tmp/a'' @ ''.delete'') \<and>
   fst (TryDelete ''tmp/a'' fsMarked) = Normal \<and>
   \<not> FileExists (snd (TryDelete ''tmp/a'' fsMarked)) ''tmp/a'' \<and>
   \<not> FileExists (snd (TryDelete ''tmp/a'' fsMarked)) (''tmp/a'' @ ''.delete'')"
proof -
  have 1: "FileExists fsMarked ''tmp/a''" by (simp add: fsMarked_def fs_eval)
  have 2: "\<not> isInUse fsMarked ''tmp/a''" by (simp add: fsMarked_def fs_eval)
  have 3: "\<not> isInUse fsMarked (''tmp/a'' @ ''.delete'')" by (simp add: fsMarked_def fs_eval)
  have 4: "FileExists fsMarked (''tmp/a'' @ ''.delete'')" by (simp add: fsMarked_def fs_eval)
  show ?thesis
    using 1 2 3 4 TryDelete_removes_marker [OF 1 2] by simp
qed

text \<open>
  Claim C10 as stated fails when the companion file is in use: \<open>tmp/a\<close> is deleted
  and \<open>tmp/a.delete\<close> is left behind.
\<close>

theorem TryDelete_busy_marker_counterexample:
  "FileExists fsBusyMarker ''tmp/a'' \<and>
   \<not> FileExists (snd (TryDelete ''tmp/a'' fsBusyMarker)) ''tmp/a'' \<and>
   FileExists (snd (TryDelete ''tmp/a'' fsBusyMarker)) (''tmp/a'' @ ''.delete'')"
  by (simp add: fsBusyMarker_def fs_eval)

subsection \<open>Purging: the deletion loop and the two parts\<close>

lemma GetTemporaryFileInfos_eq:
  "GetTemporaryFileInfos fs dir =
     (if DirectoryExists fs dir then Inr (listing fs dir) else Inl DirectoryNotFound)"
  by (simp add: GetTemporaryFileInfos_def listing_def)

lemma DirectoryExists_removeFiles [simp]:
  "DirectoryExists (removeFiles R fs) dir = DirectoryExists fs dir"
  by (simp add: DirectoryExists_def removeFiles_def)

lemma listing_removeFiles:
  "listing (removeFiles R fs) dir = filter (\<lambda>fi. FullName fi \<notin> R) (listing fs dir)"
  by (simp add: listing_def removeFiles_def filter_map comp_def toInfo_def conj_commute)

lemma deleteEach_step:
  "(if \<not> EqualsIgnoreCase chk (Name fi) then snd (try_catch (DeleteFile (FullName fi) fs)) else fs) =
   removeFiles (purged chk [fi] fs) fs"
proof -
  have "purged chk [fi] fs =
      (if \<not> EqualsIgnoreCase chk (Name fi) \<and> \<not> isInUse fs (FullName fi) then {FullName fi} else {})"
    by (auto simp: purged_def)
  then show ?thesis
    by (simp add: DeleteFile_eq try_catch_def)
qed

lemma purged_Cons:
  "purged chk (fi # rest) fs = purged chk [fi] fs \<union> purged chk rest (removeFiles (purged chk [fi] fs) fs)"
  by (auto simp: purged_def isInUse_removeFiles)

lemma deleteEach_eq: "deleteEach chk infos fs = removeFiles (purged chk infos fs) fs"
proof (induction infos arbitrary: fs)
  case Nil
  show ?case by (simp add: purged_def)
next
  case (Cons fi rest)
  have "deleteEach chk (fi # rest) fs = deleteEach chk rest (removeFiles (purged chk [fi] fs) fs)"
    by (simp only: deleteEach.simps deleteEach_step)
  also have "\<dots> = removeFiles (purged chk rest (removeFiles (purged chk [fi] fs) fs))
                      (removeFiles (purged chk [fi] fs) fs)"
    by (rule Cons.IH)
  also have "\<dots> = removeFiles (purged chk (fi # rest) fs) fs"
    by (simp only: removeFiles_removeFiles purged_Cons [of chk fi rest fs])
  finally show ?case .
qed

lemma insertSorted_insort_key:
  "insertSorted compareCreationTime x ys = insort_key CreationTime x ys"
  by (induction ys) (auto simp: compareCreationTime_def)

lemma Array_Sort_sort_key: "Array_Sort compareCreationTime xs = sort_key CreationTime xs"
proof -
  have "insertSorted compareCreationTime = insort_key CreationTime"
    by (intro ext) (rule insertSorted_insort_key)
  then show ?thesis by (simp add: Array_Sort_def sort_key_def)
qed

lemma Subtract_cases:
  "Subtract now aet = Inr (now - aet) \<or> Subtract now aet = Inl ArgumentOutOfRange"
  by (simp add: Subtract_def)

lemma Subtract_Inr: "Subtract now aet = Inr limit \<Longrightarrow> limit = now - aet"
  by (simp add: Subtract_def split: if_splits)

lemma agePass_eq:
  "agePass dir aet maxFiles chk now fs =
     (if aet \<noteq> 0 \<and> maxFiles \<noteq> 0
      then if Subtract now aet = Inr (now - aet)
           then if DirectoryExists fs dir
                then (Normal, removeFiles (agePurged dir aet chk now fs) fs)
                else (Throw DirectoryNotFound, fs)
           else (Throw ArgumentOutOfRange, fs)
      else (Normal, fs))"
  using Subtract_cases [of now aet]
  by (auto simp: agePass_def GetTemporaryFileInfos_eq deleteEach_eq agePurged_def)

lemma countPass_eq:
  "countPass dir maxFiles chk fs =
     (if 0 \<le> maxFiles
      then if DirectoryExists fs dir
           then (Normal, removeFiles (countPurged dir maxFiles chk fs) fs)
           else (Throw DirectoryNotFound, fs)
      else (Normal, fs))"
  by (simp add: countPass_def GetTemporaryFileInfos_eq deleteEach_eq countPurged_def
      Array_Sort_sort_key)

lemma countPurged_negative: "\<not> 0 \<le> maxFiles \<Longrightarrow> countPurged dir maxFiles chk fs = {}"
  by (simp add: countPurged_def)

lemma Trim_GetFileName_Nil: "Trim (GetFileName []) = []"
  by (simp add: Trim_def GetFileName_def)

lemma PurgeDirectory_passes:
  assumes "checkFileName = [] \<or> FileExists fs (Combine dir (Trim (GetFileName checkFileName)))"
  shows "PurgeDirectory dir aet maxFiles checkFileName now fs =
     (case agePass dir aet maxFiles (Trim (GetFileName checkFileName)) now fs of
        (Throw e, fs1) \<Rightarrow> (Throw e, fs1)
      | (Normal, fs1) \<Rightarrow> countPass dir maxFiles (Trim (GetFileName checkFileName)) fs1)"
proof (cases "checkFileName = []")
  case True
  show ?thesis
    unfolding True Trim_GetFileName_Nil by (simp add: PurgeDirectory_def Let_def)
next
  case False
  with assms have "FileExists fs (Combine dir (Trim (GetFileName checkFileName)))"
    by blast
  with False show ?thesis
    by (simp add: PurgeDirectory_def Let_def)
qed

lemma PurgeDirectory_eq:
  assumes "checkFileName = [] \<or> FileExists fs (Combine dir (Trim (GetFileName checkFileName)))"
    and "DirectoryExists fs dir"
    and "aet \<noteq> 0 \<and> maxFiles \<noteq> 0 \<longrightarrow> Subtract now aet = Inr (now - aet)"
  shows "PurgeDirectory dir aet maxFiles checkFileName now fs =
     (Normal, removeFiles
        (countPurged dir maxFiles (Trim (GetFileName checkFileName))
           (afterAgePass dir aet maxFiles (Trim (GetFileName checkFileName)) now fs))
        (afterAgePass dir aet maxFiles (Trim (GetFileName checkFileName)) now fs))"
proof -
  define c where "c = Trim (GetFileName checkFileName)"
  have A: "agePass dir aet maxFiles c now fs = (Normal, afterAgePass dir aet maxFiles c now fs)"
    using assms(2,3) by (simp add: agePass_eq afterAgePass_def)
  have d: "DirectoryExists (afterAgePass dir aet maxFiles c now fs) dir"
    using assms(2) by (simp add: afterAgePass_def)
  show ?thesis
    unfolding PurgeDirectory_passes [OF assms(1)] c_def [symmetric] A
    using d by (simp add: countPass_eq countPurged_negative)
qed

lemma PurgeDirectory_raises:
  "fst (PurgeDirectory dir aet maxFiles checkFileName now fs) = Throw e \<longleftrightarrow>
     (checkFileName = [] \<or> FileExists fs (Combine dir (Trim (GetFileName checkFileName)))) \<and>
     (aet \<noteq> 0 \<and> maxFiles \<noteq> 0 \<and> Subtract now aet = Inl e \<or>
      (aet \<noteq> 0 \<and> maxFiles \<noteq> 0 \<and> Subtract now aet = Inr (now - aet) \<or>
       \<not> (aet \<noteq> 0 \<and> maxFiles \<noteq> 0) \<and> 0 \<le> maxFiles) \<and>
      GetTemporaryFileInfos fs dir = Inl e)"
proof (cases "checkFileName = [] \<or> FileExists fs (Combine dir (Trim (GetFileName checkFileName)))")
  case False
  then show ?thesis by (simp add: PurgeDirectory_def)
next
  case g: True
  show ?thesis
  proof (cases "aet \<noteq> 0 \<and> maxFiles \<noteq> 0 \<longrightarrow> Subtract now aet = Inr (now - aet)")
    case r: True
    show ?thesis
    proof (cases "DirectoryExists fs dir")
      case True
      from PurgeDirectory_eq [OF g True r] r True show ?thesis
        by (auto simp: GetTemporaryFileInfos_eq)
    next
      case False
      show ?thesis
        unfolding PurgeDirectory_passes [OF g] using False g r
        by (auto simp: agePass_eq countPass_eq GetTemporaryFileInfos_eq)
    qed
  next
    case False
    then have A: "aet \<noteq> 0" "maxFiles \<noteq> 0" and n: "Subtract now aet \<noteq> Inr (now - aet)"
      by auto
    from n Subtract_cases [of now aet] have o: "Subtract now aet = Inl ArgumentOutOfRange"
      by blast
    show ?thesis
      unfolding PurgeDirectory_passes [OF g] using g A n o
      by (auto simp: agePass_eq)
  qed
qed

lemma GetFileName_no_separator: "CHR ''/'' \<notin> set (GetFileName p)"
proof
  assume "CHR ''/'' \<in> set (GetFileName p)"
  then have "CHR ''/'' \<in> set (takeWhile (\<lambda>c. c \<noteq> CHR ''/'') (rev p))"
    by (simp add: GetFileName_def)
  then show False by (auto dest: set_takeWhileD)
qed

lemma set_Trim: "set (Trim s) \<subseteq> set s"
proof -
  have "set (Trim s) \<subseteq> set (dropWhile isWhiteSpace s)"
    unfolding Trim_def using set_dropWhileD [of _ isWhiteSpace "rev (dropWhile isWhiteSpace s)"]
    by auto
  also have "\<dots> \<subseteq> set s"
    using set_dropWhileD [of _ isWhiteSpace s] by auto
  finally show ?thesis .
qed

lemma sentinel_no_separator: "CHR ''/'' \<notin> set (Trim (GetFileName chk))"
  using set_Trim [of "GetFileName chk"] GetFileName_no_separator [of chk] by auto

lemma GetFileName_Combine:
  "CHR ''/'' \<notin> set name \<Longrightarrow> GetFileName (Combine dir name) = name"
proof -
  assume a: "CHR ''/'' \<notin> set name"
  have "takeWhile (\<lambda>c. c \<noteq> CHR ''/'') (rev name @ CHR ''/'' # rev dir) = rev name"
    using a by (subst takeWhile_append2) auto
  then show ?thesis by (simp add: GetFileName_def Combine_def)
qed

lemma EqualsIgnoreCase_refl [simp]: "EqualsIgnoreCase a a"
  by (simp add: EqualsIgnoreCase_def)

lemma listing_member:
  "fi \<in> set (listing fs dir) \<Longrightarrow>
     Name fi = GetFileName (FullName fi) \<and> FileExists fs (FullName fi) \<and>
     inDirectory dir (FullName fi)"
  by (auto simp: listing_def toInfo_def FileExists_iff)

lemma FullName_listing:
  "FullName ` set (listing fs dir) = {p. FileExists fs p \<and> inDirectory dir p}"
  by (auto simp: listing_def toInfo_def FileExists_iff image_iff)

lemma purged_member:
  assumes "p \<in> purged chk infos fs" and "set infos \<subseteq> set (listing fs0 dir)"
  shows "\<not> EqualsIgnoreCase chk (GetFileName p) \<and> inDirectory dir p"
proof -
  from assms(1) obtain fi where fi: "fi \<in> set infos" "p = FullName fi"
      "\<not> EqualsIgnoreCase chk (Name fi)"
    by (auto simp: purged_def)
  with assms(2) have "fi \<in> set (listing fs0 dir)" by blast
  from listing_member [OF this] fi show ?thesis by simp
qed

lemma purged_listing:
  "purged chk (listing fs dir) fs =
     {p. FileExists fs p \<and> inDirectory dir p \<and> \<not> EqualsIgnoreCase chk (GetFileName p) \<and>
         \<not> isInUse fs p}"
proof -
  have "purged chk (listing fs dir) fs =
      {p \<in> FullName ` set (listing fs dir). \<not> EqualsIgnoreCase chk (GetFileName p) \<and> \<not> isInUse fs p}"
    using listing_member [of _ fs dir] by (fastforce simp: purged_def image_iff)
  then show ?thesis by (auto simp: FullName_listing)
qed

lemma countPurged_zero: "countPurged dir 0 chk fs = purged chk (listing fs dir) fs"
  by (auto simp: countPurged_def purged_def)

lemma countPurged_member:
  assumes "p \<in> countPurged dir maxFiles chk fs"
  shows "\<not> EqualsIgnoreCase chk (GetFileName p) \<and> inDirectory dir p"
proof -
  define infos where "infos =
     take (nat (int (length (listing fs dir)) - maxFiles))
       (if maxFiles \<noteq> 0 then sort_key CreationTime (listing fs dir) else listing fs dir)"
  have sub: "set infos \<subseteq> set (listing fs dir)"
    unfolding infos_def using set_take_subset [of _ "sort_key CreationTime (listing fs dir)"]
      set_take_subset [of _ "listing fs dir"]
    by (auto split: if_splits)
  from assms have "p \<in> purged chk infos fs"
    by (simp add: countPurged_def infos_def split: if_splits)
  from purged_member [OF this sub] show ?thesis .
qed

lemma agePurged_member:
  assumes "p \<in> agePurged dir aet chk now fs"
  shows "\<not> EqualsIgnoreCase chk (GetFileName p) \<and> inDirectory dir p"
  using assms purged_member [of p chk _ fs fs dir] by (auto simp: agePurged_def)

lemma removeFiles_keeps:
  "e \<in> set (Files fs) \<Longrightarrow> Path e \<notin> R \<Longrightarrow> e \<in> set (Files (removeFiles R fs))"
  by (simp add: removeFiles_def)

lemma distinct_FullName_listing:
  "distinct (map Path (Files fs)) \<Longrightarrow> distinct (map FullName (listing fs dir))"
proof -
  assume d: "distinct (map Path (Files fs))"
  have "map FullName (listing fs dir) = map Path (filter (\<lambda>e. inDirectory dir (Path e)) (Files fs))"
    by (simp add: listing_def toInfo_def comp_def)
  with d show ?thesis by (simp add: distinct_map_filter)
qed

lemma length_filter_member:
  assumes "distinct xs" and "distinct ys" and "set ys \<subseteq> set xs"
  shows "length (filter (\<lambda>x. x \<in> set ys) xs) = length ys"
proof -
  have "length (filter (\<lambda>x. x \<in> set ys) xs) = card ({x. x \<in> set ys} \<inter> set xs)"
    using assms(1) by (rule distinct_length_filter)
  also have "{x. x \<in> set ys} \<inter> set xs = set ys"
    using assms(3) by auto
  also have "card (set ys) = length ys"
    using assms(2) by (rule distinct_card)
  finally show ?thesis .
qed

lemma length_filter_mono:
  assumes "\<And>x. x \<in> set xs \<Longrightarrow> P x \<Longrightarrow> Q x"
  shows "length (filter P xs) \<le> length (filter Q xs)"
proof -
  have "filter P xs = filter P (filter Q xs)"
    using assms by (auto intro: filter_cong)
  then have "length (filter P xs) = length (filter P (filter Q xs))" by simp
  also have "\<dots> \<le> length (filter Q xs)" by (rule length_filter_le)
  finally show ?thesis .
qed

lemmas path_eval = Combine_def GetFileName_def Trim_def isWhiteSpace_def inDirectory_def
  EqualsIgnoreCase_def toUpper_def
lemmas purge_eval = PurgeDirectory_def agePass_def Subtract_def MaxTicks_def countPass_def
  GetTemporaryFileInfos_def
  DirectoryExists_def toInfo_def Array_Sort_def compareCreationTime_def listing_def

lemma sentinel_eval: "Trim (GetFileName ''.temporary'') = ''.temporary''"
  by (simp add: path_eval)

lemma infos_eval: "GetTemporaryFileInfos fsPurge ''tmp'' = Inr infosPurge"
  by (simp add: fsPurge_def infosPurge_def mkInfo_def purge_eval fs_eval path_eval)

lemma infosExpired_eval: "GetTemporaryFileInfos fsExpired ''tmp'' = Inr infosExpired"
  by (simp add: fsExpired_def infosExpired_def mkInfo_def purge_eval fs_eval path_eval)

subsection \<open>The sentinel file\<close>

text \<open>
  Claim C1. When a check file name is given (it is not empty) and no file of that
  name, reduced to its base name and trimmed, exists in the directory, then
  \<open>PurgeDirectory\<close> returns normally and the file system is what it was.
\<close>

theorem PurgeDirectory_without_sentinel:
  "checkFileName \<noteq> [] \<Longrightarrow>
   \<not> FileExists fs (Combine dir (Trim (GetFileName checkFileName))) \<Longrightarrow>
   PurgeDirectory dir autoExpireTime maxFiles checkFileName now fs = (Normal, fs)"
  by (simp add: PurgeDirectory_def)

theorem PurgeDirectory_without_sentinel_witness:
  "''.temporary'' \<noteq> [] \<and>
   \<not> FileExists fsNoSentinel (Combine ''tmp'' (Trim (GetFileName ''.temporary''))) \<and>
   PurgeDirectory ''tmp'' 5 1 ''.temporary'' 100 fsNoSentinel = (Normal, fsNoSentinel)"
proof -
  have a: "''.temporary'' \<noteq> []" by simp
  have b: "\<not> FileExists fsNoSentinel (Combine ''tmp'' (Trim (GetFileName ''.temporary'')))"
    by (simp add: FileExists_def lookupFile_def fsNoSentinel_def mkFile_def Combine_def Trim_def
        GetFileName_def isWhiteSpace_def)
  show ?thesis
    using a b PurgeDirectory_without_sentinel [OF a b, of 5 1 100] by simp
qed

subsection \<open>The age-based part\<close>

text \<open>
  Claim C6, as amended. The check file is present, the directory can be enumerated,
  neither the expiry time nor the cap is zero, and the subtraction of the expiry time
  from the clock gives a \<open>DateTime\<close>, the expiry limit (it does not raise). Then
  \<open>PurgeDirectory\<close> returns normally; every entry created before the expiry limit whose
  name differs from the check file name (ignoring case) and whose deletion succeeds is
  gone afterwards; and every file whose name equals the check file name, ignoring case,
  is still there, however old it is.
\<close>

theorem PurgeDirectory_expired:
  assumes "checkFileName \<noteq> []"
    and "FileExists fs (Combine dir (Trim (GetFileName checkFileName)))"
    and "GetTemporaryFileInfos fs dir = Inr infos"
    and "autoExpireTime \<noteq> 0" and "maxFiles \<noteq> 0"
    and "Subtract now autoExpireTime = Inr autoExpireLimit"
  shows "fst (PurgeDirectory dir autoExpireTime maxFiles checkFileName now fs) = Normal \<and>
         (\<forall>fi \<in> set infos.
            CreationTime fi < autoExpireLimit \<and>
            \<not> EqualsIgnoreCase (Trim (GetFileName checkFileName)) (Name fi) \<and>
            \<not> isInUse fs (FullName fi) \<longrightarrow>
            \<not> FileExists (snd (PurgeDirectory dir autoExpireTime maxFiles checkFileName now fs))
                (FullName fi)) \<and>
         (\<forall>e \<in> set (Files fs).
            EqualsIgnoreCase (Trim (GetFileName checkFileName)) (GetFileName (Path e)) \<longrightarrow>
            e \<in> set (Files (snd (PurgeDirectory dir autoExpireTime maxFiles checkFileName now fs))))"
proof -
  define c where "c = Trim (GetFileName checkFileName)"
  define A where "A = agePurged dir autoExpireTime c now fs"
  define B where "B = countPurged dir maxFiles c (removeFiles A fs)"
  from assms(3) have d: "DirectoryExists fs dir" and L: "infos = listing fs dir"
    by (auto simp: GetTemporaryFileInfos_eq split: if_splits)
  from assms(6) have lim: "autoExpireLimit = now - autoExpireTime"
    by (rule Subtract_Inr)
  have g: "checkFileName = [] \<or> FileExists fs (Combine dir (Trim (GetFileName checkFileName)))"
    using assms(2) by simp
  have r: "autoExpireTime \<noteq> 0 \<and> maxFiles \<noteq> 0 \<longrightarrow>
      Subtract now autoExpireTime = Inr (now - autoExpireTime)"
    using assms(6) lim by simp
  have P: "PurgeDirectory dir autoExpireTime maxFiles checkFileName now fs =
      (Normal, removeFiles (A \<union> B) fs)"
    unfolding PurgeDirectory_eq [OF g d r] using assms(4,5)
    by (simp add: afterAgePass_def c_def A_def B_def removeFiles_removeFiles)
  have gone: "\<not> FileExists (removeFiles (A \<union> B) fs) (FullName fi)"
    if "fi \<in> set infos" "CreationTime fi < autoExpireLimit"
      "\<not> EqualsIgnoreCase c (Name fi)" "\<not> isInUse fs (FullName fi)" for fi
  proof -
    from that have "FullName fi \<in> A"
      unfolding A_def agePurged_def purged_def L lim by auto
    then show ?thesis by (simp add: FileExists_removeFiles)
  qed
  have kept: "e \<in> set (Files (removeFiles (A \<union> B) fs))"
    if "e \<in> set (Files fs)" "EqualsIgnoreCase c (GetFileName (Path e))" for e
  proof -
    have "Path e \<notin> A"
      using that(2) agePurged_member [of "Path e" dir autoExpireTime c now fs]
      by (auto simp: A_def)
    moreover have "Path e \<notin> B"
      using that(2) countPurged_member [of "Path e" dir maxFiles c "removeFiles A fs"]
      by (auto simp: B_def)
    ultimately show ?thesis using that(1) by (intro removeFiles_keeps) auto
  qed
  show ?thesis
    unfolding P c_def [symmetric] using gone kept by simp
qed

theorem PurgeDirectory_expired_witness:
  "''.temporary'' \<noteq> [] \<and>
   FileExists fsExpired (Combine ''tmp'' (Trim (GetFileName ''.temporary''))) \<and>
   GetTemporaryFileInfos fsExpired ''tmp'' = Inr infosExpired \<and>
   (50::int) \<noteq> 0 \<and> (10::int) \<noteq> 0 \<and> Subtract 100 50 = Inr 50 \<and>
   fst (PurgeDirectory ''tmp'' 50 10 ''.temporary'' 100 fsExpired) = Normal \<and>
   \<not> FileExists (snd (PurgeDirectory ''tmp'' 50 10 ''.temporary'' 100 fsExpired)) ''tmp/b'' \<and>
   mkFile ''tmp/.temporary'' [] 1 1 False
     \<in> set (Files (snd (PurgeDirectory ''tmp'' 50 10 ''.temporary'' 100 fsExpired))) \<and>
   mkFile ''tmp/.TEMPORARY'' [] 2 2 False
     \<in> set (Files (snd (PurgeDirectory ''tmp'' 50 10 ''.temporary'' 100 fsExpired)))"
proof -
  have 1: "''.temporary'' \<noteq> []" by simp
  have 2: "FileExists fsExpired (Combine ''tmp'' (Trim (GetFileName ''.temporary'')))"
    by (simp add: fsExpired_def fs_eval path_eval)
  have 4: "(50::int) \<noteq> 0" and 5: "(10::int) \<noteq> 0" by simp_all
  have 6: "Subtract 100 50 = Inr 50" by (simp add: Subtract_def MaxTicks_def)
  note T = PurgeDirectory_expired [OF 1 2 infosExpired_eval 4 5 6]
  have b: "mkInfo ''b'' ''tmp/b'' 10 \<in> set infosExpired"
    by (simp add: infosExpired_def)
  have bc: "CreationTime (mkInfo ''b'' ''tmp/b'' 10) < 50 \<and>
      \<not> EqualsIgnoreCase (Trim (GetFileName ''.temporary'')) (Name (mkInfo ''b'' ''tmp/b'' 10)) \<and>
      \<not> isInUse fsExpired (FullName (mkInfo ''b'' ''tmp/b'' 10))"
    by (simp add: mkInfo_def fsExpired_def fs_eval path_eval)
  have s1: "mkFile ''tmp/.temporary'' [] 1 1 False \<in> set (Files fsExpired)"
    and s2: "mkFile ''tmp/.TEMPORARY'' [] 2 2 False \<in> set (Files fsExpired)"
    by (simp_all add: fsExpired_def)
  have e1: "EqualsIgnoreCase (Trim (GetFileName ''.temporary''))
      (GetFileName (Path (mkFile ''tmp/.temporary'' [] 1 1 False)))"
    and e2: "EqualsIgnoreCase (Trim (GetFileName ''.temporary''))
      (GetFileName (Path (mkFile ''tmp/.TEMPORARY'' [] 2 2 False)))"
    by (simp_all add: mkFile_def path_eval)
  from T b bc have "\<not> FileExists (snd (PurgeDirectory ''tmp'' 50 10 ''.temporary'' 100 fsExpired))
      (FullName (mkInfo ''b'' ''tmp/b'' 10))"
    by blast
  then have gone: "\<not> FileExists (snd (PurgeDirectory ''tmp'' 50 10 ''.temporary'' 100 fsExpired)) ''tmp/b''"
    by (simp add: mkInfo_def)
  from T s1 e1 s2 e2 gone 1 2 4 5 6 infosExpired_eval show ?thesis by blast
qed

text \<open>
  Claim C6 as stated fails when the subtraction raises. With the expiry time
  \<open>TimeSpan.MinValue\<close> every entry is older, in numbers, than the clock minus the expiry
  time; the call raises before it enumerates the directory, and \<open>tmp/b\<close>, which is not in
  use, is still there.
\<close>

theorem PurgeDirectory_expired_counterexample:
  "FileExists fsExpired (Combine ''tmp'' (Trim (GetFileName ''.temporary''))) \<and>
   GetTemporaryFileInfos fsExpired ''tmp'' = Inr infosExpired \<and>
   CreationTime (mkInfo ''b'' ''tmp/b'' 10) < 100 - (- 9223372036854775808) \<and>
   \<not> isInUse fsExpired ''tmp/b'' \<and>
   PurgeDirectory ''tmp'' (- 9223372036854775808) 10 ''.temporary'' 100 fsExpired =
     (Throw ArgumentOutOfRange, fsExpired) \<and>
   FileExists (snd (PurgeDirectory ''tmp'' (- 9223372036854775808) 10 ''.temporary'' 100 fsExpired))
     ''tmp/b''"
proof -
  have p: "PurgeDirectory ''tmp'' (- 9223372036854775808) 10 ''.temporary'' 100 fsExpired =
     (Throw ArgumentOutOfRange, fsExpired)"
    by (simp add: fsExpired_def purge_eval fs_eval path_eval)
  show ?thesis
    unfolding p by (simp add: infosExpired_eval mkInfo_def) (simp add: fsExpired_def fs_eval path_eval)
qed

subsection \<open>The count-based part\<close>

text \<open>
  Claim C8. With the check file present, an enumerable directory and the cap 0,
  \<open>PurgeDirectory\<close> does the same for every expiry time and every clock value: it
  removes each entry of the directory that is not named like the check file and is not
  in use. The check file stays, and when no entry is in use the directory holds the
  files named like the check file and nothing else.
\<close>

theorem PurgeDirectory_zero_cap:
  assumes "checkFileName \<noteq> []"
    and "FileExists fs (Combine dir (Trim (GetFileName checkFileName)))"
    and "GetTemporaryFileInfos fs dir = Inr infos"
  shows "PurgeDirectory dir autoExpireTime 0 checkFileName now fs =
           (Normal, removeFiles (purged (Trim (GetFileName checkFileName)) infos fs) fs) \<and>
         FileExists (snd (PurgeDirectory dir autoExpireTime 0 checkFileName now fs))
           (Combine dir (Trim (GetFileName checkFileName))) \<and>
         ((\<forall>fi \<in> set infos. \<not> isInUse fs (FullName fi)) \<longrightarrow>
            GetTemporaryFileInfos
              (snd (PurgeDirectory dir autoExpireTime 0 checkFileName now fs)) dir =
            Inr (filter (\<lambda>fi. EqualsIgnoreCase (Trim (GetFileName checkFileName)) (Name fi))
                   infos))"
proof -
  define c where "c = Trim (GetFileName checkFileName)"
  from assms(3) have d: "DirectoryExists fs dir" and L: "infos = listing fs dir"
    by (auto simp: GetTemporaryFileInfos_eq split: if_splits)
  have P: "PurgeDirectory dir autoExpireTime 0 checkFileName now fs =
      (Normal, removeFiles (purged c infos fs) fs)"
    using assms(2) d
    by (subst PurgeDirectory_eq) (simp_all add: afterAgePass_def countPurged_zero c_def L)
  have sent: "Combine dir c \<notin> purged c infos fs"
  proof
    assume "Combine dir c \<in> purged c infos fs"
    then have "\<not> EqualsIgnoreCase c (GetFileName (Combine dir c))"
      unfolding L by (auto simp: purged_listing)
    then show False
      by (simp add: c_def GetFileName_Combine sentinel_no_separator)
  qed
  have keep: "FileExists (removeFiles (purged c infos fs) fs) (Combine dir c)"
    using sent assms(2) by (simp add: FileExists_removeFiles c_def)
  have rest: "listing (removeFiles (purged c infos fs) fs) dir =
      filter (\<lambda>fi. EqualsIgnoreCase c (Name fi)) infos"
    if free: "\<forall>fi \<in> set infos. \<not> isInUse fs (FullName fi)"
  proof -
    have "filter (\<lambda>fi. FullName fi \<notin> purged c infos fs) infos =
        filter (\<lambda>fi. EqualsIgnoreCase c (Name fi)) infos"
    proof (rule filter_cong [OF refl])
      fix fi assume m: "fi \<in> set infos"
      with free have u: "\<not> isInUse fs (FullName fi)" by blast
      from m listing_member [of fi fs dir]
      have n: "Name fi = GetFileName (FullName fi)" "FileExists fs (FullName fi)"
        "inDirectory dir (FullName fi)"
        by (simp_all add: L)
      show "(FullName fi \<notin> purged c infos fs) = EqualsIgnoreCase c (Name fi)"
        unfolding L purged_listing using n u by simp
    qed
    then show ?thesis by (simp add: listing_removeFiles L)
  qed
  show ?thesis
    unfolding P c_def [symmetric] using keep rest d
    by (simp add: GetTemporaryFileInfos_eq)
qed

theorem PurgeDirectory_zero_cap_witness:
  "''.temporary'' \<noteq> [] \<and>
   FileExists fsPurge (Combine ''tmp'' (Trim (GetFileName ''.temporary''))) \<and>
   GetTemporaryFileInfos fsPurge ''tmp'' = Inr infosPurge \<and>
   \<not> isInUse fsPurge ''tmp/.temporary'' \<and> \<not> isInUse fsPurge ''tmp/c'' \<and>
   \<not> isInUse fsPurge ''tmp/a'' \<and> \<not> isInUse fsPurge ''tmp/b'' \<and>
   \<not> isInUse fsPurge ''tmp/d'' \<and>
   PurgeDirectory ''tmp'' 50 0 ''.temporary'' 100 fsPurge =
     (Normal, removeFiles {''tmp/c'', ''tmp/a'', ''tmp/b'', ''tmp/d''} fsPurge) \<and>
   GetTemporaryFileInfos (snd (PurgeDirectory ''tmp'' 50 0 ''.temporary'' 100 fsPurge)) ''tmp'' =
     Inr [mkInfo ''.temporary'' ''tmp/.temporary'' 1]"
proof -
  have 1: "''.temporary'' \<noteq> []" by simp
  have 2: "FileExists fsPurge (Combine ''tmp'' (Trim (GetFileName ''.temporary'')))"
    by (simp add: fsPurge_def fs_eval path_eval)
  have 6: "\<forall>fi \<in> set infosPurge. \<not> isInUse fsPurge (FullName fi)"
    by (simp add: infosPurge_def mkInfo_def fsPurge_def fs_eval)
  have p: "purged (Trim (GetFileName ''.temporary'')) infosPurge fsPurge =
      {''tmp/c'', ''tmp/a'', ''tmp/b'', ''tmp/d''}"
    unfolding sentinel_eval
    by (simp add: purged_def infosPurge_def mkInfo_def EqualsIgnoreCase_def toUpper_def
        fsPurge_def fs_eval)
  have f: "filter (\<lambda>fi. EqualsIgnoreCase (Trim (GetFileName ''.temporary'')) (Name fi)) infosPurge =
      [mkInfo ''.temporary'' ''tmp/.temporary'' 1]"
    unfolding sentinel_eval
    by (simp add: infosPurge_def mkInfo_def EqualsIgnoreCase_def toUpper_def)
  note T = PurgeDirectory_zero_cap [OF 1 2 infos_eval, of 50 100]
  from T have a: "PurgeDirectory ''tmp'' 50 0 ''.temporary'' 100 fsPurge =
      (Normal, removeFiles (purged (Trim (GetFileName ''.temporary'')) infosPurge fsPurge) fsPurge)"
    by blast
  from T 6 have b: "GetTemporaryFileInfos
      (snd (PurgeDirectory ''tmp'' 50 0 ''.temporary'' 100 fsPurge)) ''tmp'' =
      Inr (filter (\<lambda>fi. EqualsIgnoreCase (Trim (GetFileName ''.temporary'')) (Name fi))
             infosPurge)"
    by blast
  have u: "\<not> isInUse fsPurge ''tmp/.temporary'' \<and> \<not> isInUse fsPurge ''tmp/c'' \<and>
      \<not> isInUse fsPurge ''tmp/a'' \<and> \<not> isInUse fsPurge ''tmp/b'' \<and>
      \<not> isInUse fsPurge ''tmp/d''"
    by (simp add: fsPurge_def fs_eval)
  from 1 2 infos_eval u a [unfolded p] b [unfolded f] show ?thesis by blast
qed

text \<open>
  Claim C5, as amended. The check file is present, the expiry time is 0, the cap
  \<open>K\<close> is positive, the directory holds more than \<open>K\<close> entries (the check file counts
  as one of them), no entry is in use and no two files share a path. Then
  \<open>PurgeDirectory\<close> returns normally and the directory keeps, in their order of
  enumeration, the \<open>K\<close> entries that come last in the stable ascending sort by creation
  time, together with the entries named like the check file. So at most \<open>K\<close> entries
  other than the check file remain, and the check file itself remains.
\<close>

theorem PurgeDirectory_count_cap:
  assumes "checkFileName \<noteq> []"
    and "FileExists fs (Combine dir (Trim (GetFileName checkFileName)))"
    and "GetTemporaryFileInfos fs dir = Inr infos"
    and "0 < maxFiles" and "maxFiles < int (length infos)"
    and "\<forall>fi \<in> set infos. \<not> isInUse fs (FullName fi)"
    and "distinct (map Path (Files fs))"
  shows "fst (PurgeDirectory dir 0 maxFiles checkFileName now fs) = Normal \<and>
         listing (snd (PurgeDirectory dir 0 maxFiles checkFileName now fs)) dir =
           filter (\<lambda>fi. fi \<in> set (drop (length infos - nat maxFiles)
                                        (sort_key CreationTime infos)) \<or>
                        EqualsIgnoreCase (Trim (GetFileName checkFileName)) (Name fi)) infos \<and>
         length (filter (\<lambda>fi. \<not> EqualsIgnoreCase (Trim (GetFileName checkFileName)) (Name fi))
                   (listing (snd (PurgeDirectory dir 0 maxFiles checkFileName now fs)) dir))
           \<le> nat maxFiles \<and>
         FileExists (snd (PurgeDirectory dir 0 maxFiles checkFileName now fs))
           (Combine dir (Trim (GetFileName checkFileName)))"
proof -
  define c where "c = Trim (GetFileName checkFileName)"
  define m where "m = length infos - nat maxFiles"
  define S where "S = sort_key CreationTime infos"
  define R where "R = purged c (take m S) fs"
  from assms(3) have d: "DirectoryExists fs dir" and L: "infos = listing fs dir"
    by (auto simp: GetTemporaryFileInfos_eq split: if_splits)
  have m: "nat (int (length infos) - maxFiles) = m"
    using assms(4,5) by (simp add: m_def nat_diff_distrib)
  have cp: "countPurged dir maxFiles c fs = R"
    using assms(4,5) by (simp add: countPurged_def L [symmetric] m R_def S_def)
  have P: "PurgeDirectory dir 0 maxFiles checkFileName now fs = (Normal, removeFiles R fs)"
    using assms(2) d
    by (subst PurgeDirectory_eq) (simp_all add: afterAgePass_def c_def [symmetric] cp)
  have dF: "distinct (map FullName infos)"
    unfolding L using assms(7) by (rule distinct_FullName_listing)
  then have dI: "distinct infos" and inj: "inj_on FullName (set infos)"
    by (simp_all add: distinct_map)
  have setS: "set S = set infos" and dS: "distinct S"
    using dI by (simp_all add: S_def)
  have split: "set (take m S) \<union> set (drop m S) = set infos"
    using set_append [of "take m S" "drop m S"] setS by simp
  have disj: "set (take m S) \<inter> set (drop m S) = {}"
    using dS distinct_append [of "take m S" "drop m S"] by simp
  have mem: "(FullName fi \<notin> R) = (fi \<in> set (drop m S) \<or> EqualsIgnoreCase c (Name fi))"
    if fi: "fi \<in> set infos" for fi
  proof -
    have "(FullName fi \<in> R) = (fi \<in> set (take m S) \<and> \<not> EqualsIgnoreCase c (Name fi))"
    proof
      assume "FullName fi \<in> R"
      then obtain fi' where f': "fi' \<in> set (take m S)" "FullName fi' = FullName fi"
          "\<not> EqualsIgnoreCase c (Name fi')"
        by (auto simp: R_def purged_def)
      from f'(1) split have "fi' \<in> set infos" by blast
      with inj fi f'(2) have "fi' = fi" by (auto dest: inj_onD)
      with f' show "fi \<in> set (take m S) \<and> \<not> EqualsIgnoreCase c (Name fi)" by simp
    next
      assume "fi \<in> set (take m S) \<and> \<not> EqualsIgnoreCase c (Name fi)"
      with fi assms(6) show "FullName fi \<in> R"
        by (auto simp: R_def purged_def)
    qed
    with fi split disj show ?thesis by blast
  qed
  have rem: "listing (removeFiles R fs) dir =
      filter (\<lambda>fi. fi \<in> set (drop m S) \<or> EqualsIgnoreCase c (Name fi)) infos"
    unfolding listing_removeFiles L [symmetric]
    by (rule filter_cong [OF refl]) (rule mem)
  have "length (filter (\<lambda>fi. \<not> EqualsIgnoreCase c (Name fi)) (listing (removeFiles R fs) dir))
      = length (filter (\<lambda>fi. (fi \<in> set (drop m S) \<or> EqualsIgnoreCase c (Name fi)) \<and>
                             \<not> EqualsIgnoreCase c (Name fi)) infos)"
    by (simp add: rem conj_commute)
  also have "\<dots> \<le> length (filter (\<lambda>fi. fi \<in> set (drop m S)) infos)"
    by (rule length_filter_mono) blast
  also have "\<dots> = length (drop m S)"
    using dI dS split by (intro length_filter_member) auto
  also have "\<dots> = nat maxFiles"
    using assms(4,5) by (simp add: S_def m_def)
  finally have cnt: "length (filter (\<lambda>fi. \<not> EqualsIgnoreCase c (Name fi))
      (listing (removeFiles R fs) dir)) \<le> nat maxFiles" .
  have sent: "Combine dir c \<notin> R"
  proof
    assume "Combine dir c \<in> R"
    moreover have "set (take m S) \<subseteq> set (listing fs dir)"
      using split L by blast
    ultimately have "\<not> EqualsIgnoreCase c (GetFileName (Combine dir c))"
      unfolding R_def using purged_member by blast
    then show False
      by (simp add: c_def GetFileName_Combine sentinel_no_separator)
  qed
  have keep: "FileExists (removeFiles R fs) (Combine dir c)"
    using sent assms(2) by (simp add: FileExists_removeFiles c_def)
  show ?thesis
    unfolding P c_def [symmetric] S_def [symmetric] m_def [symmetric]
    using rem cnt keep by simp
qed

theorem PurgeDirectory_count_cap_witness:
  "''.temporary'' \<noteq> [] \<and>
   FileExists fsPurge (Combine ''tmp'' (Trim (GetFileName ''.temporary''))) \<and>
   GetTemporaryFileInfos fsPurge ''tmp'' = Inr infosPurge \<and>
   (0::int) < 3 \<and> 3 < int (length infosPurge) \<and>
   \<not> isInUse fsPurge ''tmp/.temporary'' \<and> \<not> isInUse fsPurge ''tmp/c'' \<and>
   \<not> isInUse fsPurge ''tmp/a'' \<and> \<not> isInUse fsPurge ''tmp/b'' \<and>
   \<not> isInUse fsPurge ''tmp/d'' \<and>
   distinct (map Path (Files fsPurge)) \<and>
   fst (PurgeDirectory ''tmp'' 0 3 ''.temporary'' 100 fsPurge) = Normal \<and>
   map Name (listing (snd (PurgeDirectory ''tmp'' 0 3 ''.temporary'' 100 fsPurge)) ''tmp'') =
     [''.temporary'', ''c'', ''b'', ''d'']"
proof -
  have 1: "''.temporary'' \<noteq> []" by simp
  have 2: "FileExists fsPurge (Combine ''tmp'' (Trim (GetFileName ''.temporary'')))"
    by (simp add: fsPurge_def fs_eval path_eval)
  have 4: "(0::int) < 3" by simp
  have 5: "3 < int (length infosPurge)" by (simp add: infosPurge_def)
  have 6: "\<forall>fi \<in> set infosPurge. \<not> isInUse fsPurge (FullName fi)"
    by (simp add: infosPurge_def mkInfo_def fsPurge_def fs_eval)
  have 7: "distinct (map Path (Files fsPurge))"
    by (simp add: fsPurge_def mkFile_def)
  have s: "sort_key CreationTime infosPurge =
      [mkInfo ''.temporary'' ''tmp/.temporary'' 1, mkInfo ''a'' ''tmp/a'' 10,
       mkInfo ''b'' ''tmp/b'' 10, mkInfo ''c'' ''tmp/c'' 60, mkInfo ''d'' ''tmp/d'' 80]"
    by (simp add: infosPurge_def mkInfo_def)
  have r: "map Name (filter (\<lambda>fi. fi \<in> set (drop (length infosPurge - nat 3)
                                        (sort_key CreationTime infosPurge)) \<or>
                        EqualsIgnoreCase (Trim (GetFileName ''.temporary'')) (Name fi)) infosPurge)
        = [''.temporary'', ''c'', ''b'', ''d'']"
    unfolding s sentinel_eval by (simp add: infosPurge_def mkInfo_def EqualsIgnoreCase_def toUpper_def)
  have u: "\<not> isInUse fsPurge ''tmp/.temporary'' \<and> \<not> isInUse fsPurge ''tmp/c'' \<and>
      \<not> isInUse fsPurge ''tmp/a'' \<and> \<not> isInUse fsPurge ''tmp/b'' \<and>
      \<not> isInUse fsPurge ''tmp/d''"
    by (simp add: fsPurge_def fs_eval)
  show ?thesis
    using 1 2 infos_eval 4 5 u 7 r PurgeDirectory_count_cap [OF 1 2 infos_eval 4 5 6 7, of 100]
    by simp
qed

text \<open>
  Claim C5 as stated fails when the check file is among the oldest entries: it takes
  one of the places of the entries to delete and is skipped there. With the cap 1 and
  three entries, two files remain.
\<close>

theorem count_cap_counterexample:
  "FileExists fsSmall (Combine ''tmp'' (Trim (GetFileName ''.temporary''))) \<and>
   length (Files fsSmall) = 1 + 2 \<and>
   fst (PurgeDirectory ''tmp'' 0 1 ''.temporary'' 100 fsSmall) = Normal \<and>
   map Path (Files (snd (PurgeDirectory ''tmp'' 0 1 ''.temporary'' 100 fsSmall))) =
     [''tmp/.temporary'', ''tmp/b''] \<and>
   \<not> length (Files (snd (PurgeDirectory ''tmp'' 0 1 ''.temporary'' 100 fsSmall))) \<le> 1"
  by (simp add: fsSmall_def purge_eval fs_eval path_eval)

subsection \<open>Errors of a purge\<close>

text \<open>
  Claim C9, as amended. \<open>PurgeDirectory\<close> raises an error exactly when it gets past the
  check for the check file and either the age-based part runs and the subtraction of the
  expiry time from the clock raises, or a part runs and the enumeration of the directory
  fails; the error is the one of the subtraction or of the enumeration. A deletion that
  fails never makes the call raise and never stops a part: when the call gets past the
  check for the check file, the subtraction does not raise and the directory can be
  enumerated, the call returns normally, and it has removed exactly the entries that
  the two parts select, each entry that is not named like the check file and is not in
  use, wherever the entries in use stand among them.
\<close>

theorem PurgeDirectory_errors:
  "(fst (PurgeDirectory dir autoExpireTime maxFiles checkFileName now fs) = Throw e \<longleftrightarrow>
      (checkFileName = [] \<or> FileExists fs (Combine dir (Trim (GetFileName checkFileName)))) \<and>
      (autoExpireTime \<noteq> 0 \<and> maxFiles \<noteq> 0 \<and> Subtract now autoExpireTime = Inl e \<or>
       (autoExpireTime \<noteq> 0 \<and> maxFiles \<noteq> 0 \<and>
          Subtract now autoExpireTime = Inr (now - autoExpireTime) \<or>
        \<not> (autoExpireTime \<noteq> 0 \<and> maxFiles \<noteq> 0) \<and> 0 \<le> maxFiles) \<and>
       GetTemporaryFileInfos fs dir = Inl e)) \<and>
   ((checkFileName = [] \<or> FileExists fs (Combine dir (Trim (GetFileName checkFileName)))) \<and>
    (autoExpireTime \<noteq> 0 \<and> maxFiles \<noteq> 0 \<longrightarrow>
       Subtract now autoExpireTime = Inr (now - autoExpireTime)) \<and>
    GetTemporaryFileInfos fs dir = Inr (listing fs dir) \<longrightarrow>
    PurgeDirectory dir autoExpireTime maxFiles checkFileName now fs =
      (Normal, removeFiles
         (countPurged dir maxFiles (Trim (GetFileName checkFileName))
            (afterAgePass dir autoExpireTime maxFiles (Trim (GetFileName checkFileName)) now fs))
         (afterAgePass dir autoExpireTime maxFiles (Trim (GetFileName checkFileName)) now fs)))"
proof (intro conjI impI)
  show "fst (PurgeDirectory dir autoExpireTime maxFiles checkFileName now fs) = Throw e \<longleftrightarrow>
      (checkFileName = [] \<or> FileExists fs (Combine dir (Trim (GetFileName checkFileName)))) \<and>
      (autoExpireTime \<noteq> 0 \<and> maxFiles \<noteq> 0 \<and> Subtract now autoExpireTime = Inl e \<or>
       (autoExpireTime \<noteq> 0 \<and> maxFiles \<noteq> 0 \<and>
          Subtract now autoExpireTime = Inr (now - autoExpireTime) \<or>
        \<not> (autoExpireTime \<noteq> 0 \<and> maxFiles \<noteq> 0) \<and> 0 \<le> maxFiles) \<and>
       GetTemporaryFileInfos fs dir = Inl e)"
    by (rule PurgeDirectory_raises)
next
  assume a: "(checkFileName = [] \<or>
      FileExists fs (Combine dir (Trim (GetFileName checkFileName)))) \<and>
    (autoExpireTime \<noteq> 0 \<and> maxFiles \<noteq> 0 \<longrightarrow>
       Subtract now autoExpireTime = Inr (now - autoExpireTime)) \<and>
    GetTemporaryFileInfos fs dir = Inr (listing fs dir)"
  then have d: "DirectoryExists fs dir"
    by (auto simp: GetTemporaryFileInfos_eq split: if_splits)
  from a have g: "checkFileName = [] \<or>
      FileExists fs (Combine dir (Trim (GetFileName checkFileName)))"
    and r: "autoExpireTime \<noteq> 0 \<and> maxFiles \<noteq> 0 \<longrightarrow>
       Subtract now autoExpireTime = Inr (now - autoExpireTime)"
    by blast+
  show "PurgeDirectory dir autoExpireTime maxFiles checkFileName now fs =
      (Normal, removeFiles
         (countPurged dir maxFiles (Trim (GetFileName checkFileName))
            (afterAgePass dir autoExpireTime maxFiles (Trim (GetFileName checkFileName)) now fs))
         (afterAgePass dir autoExpireTime maxFiles (Trim (GetFileName checkFileName)) now fs))"
    by (rule PurgeDirectory_eq [OF g d r])
qed

theorem PurgeDirectory_errors_witness:
  "GetTemporaryFileInfos fsExpired ''gone'' = Inl DirectoryNotFound \<and>
   fst (PurgeDirectory ''gone'' 50 10 [] 100 fsExpired) = Throw DirectoryNotFound \<and>
   FileExists fsExpired (Combine ''tmp'' (Trim (GetFileName ''.temporary''))) \<and>
   Subtract 100 50 = Inr (100 - 50) \<and>
   GetTemporaryFileInfos fsExpired ''tmp'' = Inr (listing fsExpired ''tmp'') \<and>
   isInUse fsExpired ''tmp/a'' \<and>
   PurgeDirectory ''tmp'' 50 10 ''.temporary'' 100 fsExpired =
     (Normal, removeFiles {''tmp/b''} fsExpired) \<and>
   FileExists (removeFiles {''tmp/b''} fsExpired) ''tmp/a'' \<and>
   \<not> FileExists (removeFiles {''tmp/b''} fsExpired) ''tmp/b''"
proof -
  have g: "GetTemporaryFileInfos fsExpired ''gone'' = Inl DirectoryNotFound"
    by (simp add: GetTemporaryFileInfos_def DirectoryExists_def fsExpired_def)
  have s: "Subtract 100 50 = Inr (100 - 50)" by (simp add: Subtract_def MaxTicks_def)
  have 2: "FileExists fsExpired (Combine ''tmp'' (Trim (GetFileName ''.temporary'')))"
    by (simp add: fsExpired_def fs_eval path_eval)
  have l: "GetTemporaryFileInfos fsExpired ''tmp'' = Inr (listing fsExpired ''tmp'')"
    by (simp add: GetTemporaryFileInfos_def listing_def DirectoryExists_def fsExpired_def)
  have li: "listing fsExpired ''tmp'' = infosExpired"
    using infosExpired_eval l by simp
  have u: "isInUse fsExpired ''tmp/a''" by (simp add: fsExpired_def fs_eval)
  have a: "afterAgePass ''tmp'' 50 10 (Trim (GetFileName ''.temporary'')) 100 fsExpired =
      removeFiles {''tmp/b''} fsExpired"
    unfolding afterAgePass_def agePurged_def li sentinel_eval
    by (simp add: purged_def infosExpired_def mkInfo_def EqualsIgnoreCase_def toUpper_def
        fsExpired_def fs_eval)
  have c: "countPurged ''tmp'' 10 (Trim (GetFileName ''.temporary''))
      (removeFiles {''tmp/b''} fsExpired) = {}"
    unfolding countPurged_def listing_removeFiles li
    by (simp add: infosExpired_def)
  have k: "FileExists (removeFiles {''tmp/b''} fsExpired) ''tmp/a'' \<and>
      \<not> FileExists (removeFiles {''tmp/b''} fsExpired) ''tmp/b''"
    by (simp add: FileExists_removeFiles) (simp add: fsExpired_def fs_eval)
  note T1 = PurgeDirectory_errors [of "''gone''" 50 10 "[]" 100 fsExpired DirectoryNotFound]
  note T2 = PurgeDirectory_errors [of "''tmp''" 50 10 "''.temporary''" 100 fsExpired
      DirectoryNotFound, unfolded a c removeFiles_empty]
  from T1 g s have r1: "fst (PurgeDirectory ''gone'' 50 10 [] 100 fsExpired) =
      Throw DirectoryNotFound"
    by simp
  from T2 2 s l have r2: "PurgeDirectory ''tmp'' 50 10 ''.temporary'' 100 fsExpired =
     (Normal, removeFiles {''tmp/b''} fsExpired)"
    by blast
  from g r1 2 s l u r2 k show ?thesis by blast
qed

text \<open>
  Claim C9 as stated fails when the subtraction raises: with the expiry time
  \<open>TimeSpan.MaxValue\<close> the enumeration of the directory would succeed, and the call
  raises the error of the subtraction.
\<close>

theorem PurgeDirectory_errors_counterexample:
  "FileExists fsExpired (Combine ''tmp'' (Trim (GetFileName ''.temporary''))) \<and>
   GetTemporaryFileInfos fsExpired ''tmp'' = Inr infosExpired \<and>
   fst (PurgeDirectory ''tmp'' 9223372036854775807 10 ''.temporary'' 100 fsExpired) =
     Throw ArgumentOutOfRange"
  by (simp add: infosExpired_eval) (simp add: fsExpired_def purge_eval fs_eval path_eval)

subsection \<open>Marking and sweeping\<close>






























































end
